theory Spec2Isabelle
  imports Main "HOL-Library.Multiset" "HOL-Library.Sublist" "HOL-Library.Char_ord"
    "HOL-Library.List_Lexorder"
begin

section \<open>Strings\<close>

text \<open>
  JavaScript strings are modelled as \<open>string\<close>; a \<open>char\<close> is read as the code point
  U+0000..U+00FF it numbers. The string methods of script.js are given on that range.
\<close>

definition lower_char :: "char \<Rightarrow> char" where
  \<comment> \<open>\<open>String.prototype.toLowerCase\<close> on one code point: A-Z, and the Latin-1 capitals
      U+00C0..U+00DE without the multiplication sign U+00D7, move up by 32.\<close>
  "lower_char c =
     (let n = (of_char c :: nat)
      in if (65 \<le> n \<and> n \<le> 90) \<or> (192 \<le> n \<and> n \<le> 214) \<or> (216 \<le> n \<and> n \<le> 222)
         then char_of (n + 32) else c)"

definition toLowerCase :: "string \<Rightarrow> string" where
  "toLowerCase s = map lower_char s"

fun str_includes :: "string \<Rightarrow> string \<Rightarrow> bool" where
  \<comment> \<open>\<open>s.includes(t)\<close>: \<open>t\<close> occurs in \<open>s\<close> at some position.\<close>
  "str_includes [] t = (t = [])"
| "str_includes (c # cs) t = (take (length t) (c # cs) = t \<or> str_includes cs t)"

definition is_space :: "char \<Rightarrow> bool" where
  \<comment> \<open>The white space and line terminators of ECMAScript below U+0100.\<close>
  "is_space c = ((of_char c :: nat) \<in> set [9, 10, 11, 12, 13, 32, 160])"

definition trim :: "string \<Rightarrow> string" where
  "trim s = rev (dropWhile is_space (rev (dropWhile is_space s)))"

fun split_str :: "char \<Rightarrow> string \<Rightarrow> string list" where
  \<comment> \<open>\<open>s.split(sep)\<close> for a one-character separator; the result is never empty.\<close>
  "split_str sep [] = [[]]"
| "split_str sep (c # cs) =
     (if c = sep then [] # split_str sep cs
      else (case split_str sep cs of
              [] \<Rightarrow> [[c]]
            | w # ws \<Rightarrow> (c # w) # ws))"

definition startsWith :: "string \<Rightarrow> string \<Rightarrow> bool" where
  "startsWith s p = (take (length p) s = p)"

subsection \<open>parseInt\<close>

definition digit_val :: "char \<Rightarrow> nat option" where
  \<comment> \<open>The value of a digit in radix 16 or less; \<open>None\<close> when the character is no digit.\<close>
  "digit_val c =
     (let n = (of_char c :: nat)
      in if 48 \<le> n \<and> n \<le> 57 then Some (n - 48)
         else if 97 \<le> n \<and> n \<le> 102 then Some (n - 87)
         else if 65 \<le> n \<and> n \<le> 70 then Some (n - 55)
         else None)"

definition is_digit :: "nat \<Rightarrow> char \<Rightarrow> bool" where
  "is_digit radix c = (case digit_val c of None \<Rightarrow> False | Some v \<Rightarrow> v < radix)"

definition digits_value :: "nat \<Rightarrow> string \<Rightarrow> nat" where
  "digits_value radix ds = foldl (\<lambda>a c. radix * a + (case digit_val c of None \<Rightarrow> 0 | Some v \<Rightarrow> v)) 0 ds"

definition parseInt :: "string \<Rightarrow> int option" where
  \<comment> \<open>\<open>parseInt(s)\<close> with no radix argument: leading white space, an optional sign, an
      optional \<open>0x\<close>/\<open>0X\<close> prefix selecting radix 16, then the longest run of digits.
      \<open>None\<close> is NaN (no digit). Values are exact integers: the rounding of numbers
      beyond \<open>2^53\<close> is not modelled.\<close>
  "parseInt s =
     (let t = dropWhile is_space s;
          neg = (take 1 t = ''-'');
          u = (if take 1 t = ''-'' \<or> take 1 t = ''+'' then drop 1 t else t);
          hex = (take 2 u = ''0x'' \<or> take 2 u = ''0X'');
          radix = (if hex then 16 else 10);
          v = (if hex then drop 2 u else u);
          ds = takeWhile (is_digit radix) v
      in if ds = [] then None
         else Some ((if neg then - 1 else 1) * int (digits_value radix ds)))"

section \<open>Records of the store\<close>

text \<open>
  An entry is the object built by \<open>handleUpload\<close> (script.js, lines 361-370) and kept in
  the store. \<open>eid\<close> is the field \<open>id\<close> and \<open>etype\<close> the field \<open>type\<close>. The code guards
  \<open>description\<close> and \<open>tags\<close> with \<open>entry.description && ...\<close> and \<open>entry.tags && ...\<close>,
  so both may be absent (\<open>None\<close>). The field \<open>date\<close> is always written as
  \<open>new Date().toISOString()\<close>; the record keeps the instant, in milliseconds since the
  epoch, and \<open>toISOString\<close> below renders the stored text where the code reads the text.
  Identifiers are exact integers (JavaScript numbers below \<open>2^53\<close>).

  \<open>fileType\<close> holds \<open>ALLOWED_TYPES[file.type]\<close> (line 366), which is one of the six
  strings of the table or, for a key the table inherits from \<open>Object.prototype\<close>, a
  function or the prototype object. The store keeps what \<open>JSON.stringify\<close> writes: a
  string as it is, an object without own properties as \<open>{}\<close>, and no property at all
  for a function (\<open>None\<close>).
\<close>

datatype js_value = JStr string | JFunction | JObject

fun toBoolean :: "js_value \<Rightarrow> bool" where
  \<comment> \<open>Truthiness: the empty string is falsy, every function and object is truthy.\<close>
  "toBoolean (JStr s) = (s \<noteq> [])"
| "toBoolean JFunction = True"
| "toBoolean JObject = True"

fun stringified :: "js_value \<Rightarrow> js_value option" where
  \<comment> \<open>The property after \<open>JSON.parse(JSON.stringify(...))\<close>.\<close>
  "stringified (JStr s) = Some (JStr s)"
| "stringified JFunction = None"
| "stringified JObject = Some JObject"

record entry =
  eid :: int
  title :: string
  description :: "string option"
  tags :: "string list option"
  fileName :: string
  fileType :: "js_value option"
  etype :: string
  fileData :: string
  date :: int

section \<open>The fallback backend (localStorage)\<close>

text \<open>
  \<open>localStorage.getItem('entries')\<close> is \<open>None\<close> while the key was never written, and
  otherwise the list that \<open>JSON.stringify\<close> wrote and \<open>JSON.parse\<close> reads back.
\<close>

type_synonym local_storage = "entry list option"

definition getEntriesFromLocalStorage :: "local_storage \<Rightarrow> entry list" where
  "getEntriesFromLocalStorage ls = (case ls of None \<Rightarrow> [] | Some es \<Rightarrow> es)"

fun Math_max :: "int list \<Rightarrow> int option" where
  \<comment> \<open>\<open>Math.max(...xs)\<close>: the running maximum from \<open>-Infinity\<close>, which is \<open>None\<close>.\<close>
  "Math_max [] = None"
| "Math_max (x # xs) = Some (fold max xs x)"

definition addEntryToLocalStorage :: "local_storage \<Rightarrow> entry \<Rightarrow> local_storage \<times> int" where
  \<comment> \<open>Lines 421-427. Returns the new storage and the returned id. The incoming
      \<open>eid\<close> is overwritten, as \<open>entry.id = ...\<close> does.\<close>
  "addEntryToLocalStorage ls entry =
     (let entries = getEntriesFromLocalStorage ls;
          newid = (if length entries > 0
                   then (case Math_max (map eid entries) of Some m \<Rightarrow> m + 1 | None \<Rightarrow> 1)
                   else 1);
          entry' = entry\<lparr>eid := newid\<rparr>
      in (Some (entries @ [entry']), newid))"

fun findIndex :: "('a \<Rightarrow> bool) \<Rightarrow> 'a list \<Rightarrow> nat option" where
  \<comment> \<open>\<open>Array.prototype.findIndex\<close>: the first index whose element passes; \<open>None\<close> is -1.\<close>
  "findIndex p [] = None"
| "findIndex p (x # xs) =
     (if p x then Some 0 else (case findIndex p xs of None \<Rightarrow> None | Some i \<Rightarrow> Some (Suc i)))"

definition updateEntryInLocalStorage :: "local_storage \<Rightarrow> entry \<Rightarrow> local_storage" where
  \<comment> \<open>Lines 437-444: storage is written only when the index was found.\<close>
  "updateEntryInLocalStorage ls entry =
     (let entries = getEntriesFromLocalStorage ls
      in case findIndex (\<lambda>e. eid e = eid entry) entries of
           Some index \<Rightarrow> Some (entries[index := entry])
         | None \<Rightarrow> ls)"

definition removeEntryFromLocalStorage :: "local_storage \<Rightarrow> string \<Rightarrow> local_storage" where
  \<comment> \<open>Lines 454-458. \<open>id\<close> is the text of a \<open>data-id\<close> attribute; \<open>e.id !== NaN\<close> holds
      for every entry, so a text that is no number removes nothing.\<close>
  "removeEntryFromLocalStorage ls id' =
     (let entries = getEntriesFromLocalStorage ls;
          filteredEntries = filter (\<lambda>e. Some (eid e) \<noteq> parseInt id') entries
      in Some filteredEntries)"

definition getEntryById :: "local_storage \<Rightarrow> string \<Rightarrow> entry option" where
  \<comment> \<open>Lines 460-467 with \<open>useLocalStorage\<close> set; \<open>None\<close> is \<open>undefined\<close>, the
      "not found" signal tested by \<open>if (!entry)\<close>.\<close>
  "getEntryById ls id' =
     (let entries = getEntriesFromLocalStorage ls
      in find (\<lambda>e. Some (eid e) = parseInt id') entries)"

subsection \<open>Sequences of operations\<close>

datatype store_op = Insert entry | Update entry | Delete string

fun apply_op :: "local_storage \<Rightarrow> store_op \<Rightarrow> local_storage" where
  "apply_op ls (Insert e) = fst (addEntryToLocalStorage ls e)"
| "apply_op ls (Update e) = updateEntryInLocalStorage ls e"
| "apply_op ls (Delete i) = removeEntryFromLocalStorage ls i"

definition run_ops :: "local_storage \<Rightarrow> store_op list \<Rightarrow> local_storage" where
  "run_ops ls ops = foldl apply_op ls ops"

section \<open>Sample data\<close>

text \<open>
  Two entries used to run the theorems on concrete stores.
\<close>

definition report :: entry where
  "report = \<lparr>eid = 1, title = ''Report'', description = Some ''Quarterly figures'',
     tags = Some [''Work'', ''URGENT''], fileName = ''report.pdf'', fileType = Some (JStr ''pdf''),
     etype = ''document'', fileData = ''data:application/pdf;base64,AAAA'',
     date = 1704103200000\<rparr>"

definition photo :: entry where
  "photo = \<lparr>eid = 2, title = ''Holiday'', description = None,
     tags = Some [''work'', ''Family''], fileName = ''beach.png'', fileType = Some (JStr ''png''),
     etype = ''image'', fileData = ''data:image/png;base64,BBBB'',
     date = 1704186000000\<rparr>"

section \<open>The query layer\<close>

definition matchesSearch :: "string \<Rightarrow> entry \<Rightarrow> bool" where
  \<comment> \<open>Lines 88-90. \<open>entry.description && ...\<close> is falsy for an absent and for an
      empty description.\<close>
  "matchesSearch searchTerm entry =
     (searchTerm = [] \<or>
      str_includes (toLowerCase (title entry)) searchTerm \<or>
      (case description entry of
         None \<Rightarrow> False
       | Some d \<Rightarrow> d \<noteq> [] \<and> str_includes (toLowerCase d) searchTerm))"

definition matchesType :: "string \<Rightarrow> entry \<Rightarrow> bool" where
  \<comment> \<open>Line 92.\<close>
  "matchesType typeFilter entry = (typeFilter = ''all'' \<or> etype entry = typeFilter)"

definition matchesTag :: "string \<Rightarrow> entry \<Rightarrow> bool" where
  \<comment> \<open>Lines 94-95.\<close>
  "matchesTag tagFilter entry =
     (tagFilter = ''all'' \<or>
      (case tags entry of
         None \<Rightarrow> False
       | Some ts \<Rightarrow> list_ex (\<lambda>tag. toLowerCase tag = toLowerCase tagFilter) ts))"

fun insert_by :: "('a \<Rightarrow> 'a \<Rightarrow> int) \<Rightarrow> 'a \<Rightarrow> 'a list \<Rightarrow> 'a list" where
  "insert_by cmp x [] = [x]"
| "insert_by cmp x (y # ys) =
     (if cmp x y \<le> 0 then x # y # ys else y # insert_by cmp x ys)"

definition array_sort :: "('a \<Rightarrow> 'a \<Rightarrow> int) \<Rightarrow> 'a list \<Rightarrow> 'a list" where
  \<comment> \<open>\<open>Array.prototype.sort(cmp)\<close>, which ECMAScript requires to be stable: elements
      that compare equal keep their order. Each element is inserted in front of the
      sorted rest of the array.\<close>
  "array_sort cmp xs = foldr (insert_by cmp) xs []"

definition loadEntries :: "entry list \<Rightarrow> string \<Rightarrow> string \<Rightarrow> string \<Rightarrow> entry list" where
  \<comment> \<open>Lines 80-101: the list handed to \<open>displayEntries\<close>, from the result of
      \<open>getAllEntries\<close> and the values of the three inputs. \<open>new Date(b.date) -
      new Date(a.date)\<close> is the difference of the two instants.\<close>
  "loadEntries allEntries searchInput typeFilter tagFilter =
     (let searchTerm = toLowerCase searchInput;
          entries = filter (\<lambda>entry.
             matchesSearch searchTerm entry \<and> matchesType typeFilter entry
             \<and> matchesTag tagFilter entry) allEntries
      in array_sort (\<lambda>a b. date b - date a) entries)"

subsection \<open>The filter as the specification words it\<close>

definition ci_substring :: "string \<Rightarrow> string \<Rightarrow> bool" where
  \<comment> \<open>Case-insensitive substring match: \<open>t\<close> occurs in \<open>s\<close> once both are case-folded.\<close>
  "ci_substring t s = sublist (toLowerCase t) (toLowerCase s)"

definition spec_matches :: "string \<Rightarrow> string \<Rightarrow> string \<Rightarrow> entry \<Rightarrow> bool" where
  \<comment> \<open>The conjunction of the three predicates of section 4.2 of the specification.\<close>
  "spec_matches searchTerm typeFilter tagFilter e =
     ((searchTerm = [] \<or> ci_substring searchTerm (title e) \<or>
         (case description e of None \<Rightarrow> False | Some d \<Rightarrow> ci_substring searchTerm d))
      \<and> (typeFilter = ''all'' \<or> typeFilter = etype e)
      \<and> (tagFilter = ''all'' \<or>
         (case tags e of
            None \<Rightarrow> False
          | Some ts \<Rightarrow> list_ex (\<lambda>t. toLowerCase t = toLowerCase tagFilter) ts)))"

section \<open>The tag index\<close>

definition set_add :: "'a \<Rightarrow> 'a list \<Rightarrow> 'a list" where
  \<comment> \<open>\<open>Set.prototype.add\<close>: a \<open>Set\<close> keeps its members in insertion order.\<close>
  "set_add x s = (if x \<in> set s then s else s @ [x])"

definition collectTags :: "entry list \<Rightarrow> string list" where
  \<comment> \<open>Lines 595-601: the \<open>Set\<close> after the two nested \<open>forEach\<close> loops.\<close>
  "collectTags entries =
     fold (\<lambda>entry s.
        case tags entry of
          None \<Rightarrow> s
        | Some ts \<Rightarrow>
            if length ts > 0 then fold (\<lambda>tag s'. set_add (toLowerCase tag) s') ts s else s)
       entries []"

definition loadTags :: "entry list \<Rightarrow> string list" where
  \<comment> \<open>Lines 610-615: the option values appended after "All Tags".
      \<open>Array.prototype.sort()\<close> with no comparator orders strings by their code
      units, which is the lexicographic order of \<open>string\<close>.\<close>
  "loadTags entries = sort (collectTags entries)"

section \<open>Dates\<close>

text \<open>
  A \<open>Date\<close> is its time value: milliseconds since 1970-01-01T00:00:00Z, an \<open>int\<close>.
  The civil calendar is the proleptic Gregorian one of ECMAScript.
\<close>

definition civil_from_days :: "int \<Rightarrow> int \<times> int \<times> int" where
  \<comment> \<open>Year, month (1-12) and day of the month of a day number counted from 1970-01-01.\<close>
  "civil_from_days z =
     (let z' = z + 719468;
          era = z' div 146097;
          doe = z' mod 146097;
          yoe = (doe - doe div 1460 + doe div 36524 - doe div 146096) div 365;
          doy = doe - (365 * yoe + yoe div 4 - yoe div 100);
          mp = (5 * doy + 2) div 153;
          d = doy - (153 * mp + 2) div 5 + 1;
          m = (if mp < 10 then mp + 3 else mp - 9);
          y = yoe + era * 400 + (if m \<le> 2 then 1 else 0)
      in (y, m, d))"

definition days_from_civil :: "int \<Rightarrow> int \<Rightarrow> int \<Rightarrow> int" where
  \<comment> \<open>The day number of year \<open>y\<close>, month \<open>m\<close> (1-12), day \<open>d\<close>.\<close>
  "days_from_civil y m d =
     (let y' = (if m \<le> 2 then y - 1 else y);
          era = y' div 400;
          yoe = y' mod 400;
          doy = (153 * (if m > 2 then m - 3 else m + 9) + 2) div 5 + d - 1;
          doe = yoe * 365 + yoe div 4 - yoe div 100 + doy
      in era * 146097 + doe - 719468)"

fun digits10 :: "nat \<Rightarrow> int \<Rightarrow> string" where
  \<comment> \<open>The last \<open>w\<close> decimal digits of \<open>n\<close>, zero padded.\<close>
  "digits10 0 n = []"
| "digits10 (Suc w) n = digits10 w (n div 10) @ [char_of (48 + n mod 10)]"

definition toISOString :: "int \<Rightarrow> string" where
  \<comment> \<open>\<open>Date.prototype.toISOString\<close>: \<open>YYYY-MM-DDTHH:mm:ss.sssZ\<close> in UTC, the year with
      a sign and six digits outside 0..9999.\<close>
  "toISOString t =
     (let days = t div 86400000;
          ms = t mod 86400000;
          (y, m, d) = civil_from_days days;
          year = (if 0 \<le> y \<and> y \<le> 9999 then digits10 4 y
                  else (if y < 0 then ''-'' else ''+'') @ digits10 6 \<bar>y\<bar>)
      in year @ ''-'' @ digits10 2 m @ ''-'' @ digits10 2 d @ ''T''
         @ digits10 2 (ms div 3600000) @ '':'' @ digits10 2 (ms div 60000 mod 60) @ '':''
         @ digits10 2 (ms div 1000 mod 60) @ ''.'' @ digits10 3 (ms mod 1000) @ ''Z'')"

definition newDate :: "int \<Rightarrow> int \<Rightarrow> int \<Rightarrow> int \<Rightarrow> int" where
  \<comment> \<open>\<open>new Date(year, month, day)\<close> (line 511): midnight local time of that day, for
      a month index 0-11 and a year from 100 on. The time zone is \<open>tz\<close> minutes east
      of UTC, taken as constant.\<close>
  "newDate tz year month day = days_from_civil year (month + 1) day * 86400000 - tz * 60000"

definition localDate :: "int \<Rightarrow> int \<Rightarrow> int \<times> int \<times> int" where
  \<comment> \<open>The local calendar date (year, month 1-12, day) of an instant, time of day
      dropped: what \<open>getFullYear\<close>, \<open>getMonth() + 1\<close> and \<open>getDate\<close> return.\<close>
  "localDate tz t = civil_from_days ((t + tz * 60000) div 86400000)"

definition doesDateHaveEntries :: "entry list \<Rightarrow> int \<Rightarrow> bool" where
  \<comment> \<open>Lines 563-578: the value the returned promise resolves to. \<open>entry.date\<close> is the
      stored text \<open>toISOString (date entry)\<close>.\<close>
  "doesDateHaveEntries entries d =
     (if length entries = 0 then False
      else (let dateStr = hd (split_str CHR ''T'' (toISOString d))
            in list_ex (\<lambda>entry.
                 (let entryDateStr = hd (split_str CHR ''T'' (toISOString (date entry)))
                  in entryDateStr = dateStr)) entries))"

datatype 'a promise = Promise 'a

definition truthy :: "'a promise \<Rightarrow> bool" where
  \<comment> \<open>\<open>ToBoolean\<close> of a promise: every object is truthy.\<close>
  "truthy p = True"

definition hasEntriesClass :: "entry list \<Rightarrow> int \<Rightarrow> string" where
  \<comment> \<open>Line 513 of \<open>renderCalendar\<close>: the \<open>async\<close> method is called without \<open>await\<close>, so
      the condition tests the promise and not the value it resolves to.\<close>
  "hasEntriesClass entries currentDate =
     (if truthy (Promise (doesDateHaveEntries entries currentDate)) then ''has-entries'' else [])"

section \<open>Upload and edit\<close>

text \<open>
  The inputs of \<open>handleUpload\<close>: the selected files (\<open>File.name\<close>, \<open>File.type\<close>,
  \<open>File.size\<close>) and the text of the three form fields.
\<close>

record js_file =
  fname :: string
  ftype :: string
  fsize :: int

record form =
  files :: "js_file list"
  titleInput :: string
  descriptionInput :: string
  tagsInput :: string

definition MAX_FILE_SIZE :: int where
  "MAX_FILE_SIZE = 10 * 1024 * 1024"

definition ALLOWED_TYPES :: "(string \<times> string) list" where
  \<comment> \<open>Lines 10-17: the own properties of the object literal.\<close>
  "ALLOWED_TYPES =
     [(''application/pdf'', ''pdf''),
      (''application/vnd.openxmlformats-officedocument.wordprocessingml.document'', ''docx''),
      (''text/plain'', ''txt''),
      (''image/jpeg'', ''jpg''),
      (''image/png'', ''png''),
      (''video/mp4'', ''mp4'')]"

definition Object_prototype_methods :: "string list" where
  \<comment> \<open>The function-valued properties of \<open>Object.prototype\<close>, which every object
      literal inherits.\<close>
  "Object_prototype_methods =
     [''constructor'', ''hasOwnProperty'', ''isPrototypeOf'', ''propertyIsEnumerable'',
      ''toLocaleString'', ''toString'', ''valueOf'', ''__defineGetter__'',
      ''__defineSetter__'', ''__lookupGetter__'', ''__lookupSetter__'']"

definition ALLOWED_TYPES_get :: "string \<Rightarrow> js_value option" where
  \<comment> \<open>\<open>ALLOWED_TYPES[key]\<close> (lines 335 and 366): an own property first, then the
      prototype chain; \<open>__proto__\<close> reads the prototype object itself. \<open>None\<close> is
      \<open>undefined\<close>.\<close>
  "ALLOWED_TYPES_get key =
     (case map_of ALLOWED_TYPES key of
        Some v \<Rightarrow> Some (JStr v)
      | None \<Rightarrow>
          if key = ''__proto__'' then Some JObject
          else if key \<in> set Object_prototype_methods then Some JFunction
          else None)"

datatype toast = Toast string string string

text \<open>
  The state of the \<open>DocumentManager\<close> that \<open>handleUpload\<close> reads and writes, with
  \<open>useLocalStorage\<close> set: the storage and \<open>currentEntryId\<close> (\<open>None\<close> is \<open>null\<close>;
  \<open>editEntry\<close> stores the text of a \<open>data-id\<close> attribute).
\<close>

record manager =
  storage :: local_storage
  currentEntryId :: "string option"

definition processTags :: "string \<Rightarrow> string list" where
  \<comment> \<open>Lines 353-355.\<close>
  "processTags v =
     (if v \<noteq> [] then filter (\<lambda>tag. tag \<noteq> []) (map trim (split_str CHR '','' v)) else [])"

definition fileCategoryOf :: "string \<Rightarrow> string" where
  \<comment> \<open>Lines 347-350.\<close>
  "fileCategoryOf t =
     (if startsWith t ''image/'' then ''image''
      else if startsWith t ''video/'' then ''video''
      else ''document'')"

definition buildEntry :: "form \<Rightarrow> js_file \<Rightarrow> js_value \<Rightarrow> string \<Rightarrow> int \<Rightarrow> entry" where
  \<comment> \<open>Lines 361-370: the object literal. It has no \<open>id\<close> until line 374 or line 423
      assigns one; the record's \<open>eid\<close> is 0 until then. \<open>fileType\<close> is given as
      the store will hold it.\<close>
  "buildEntry f file ft fileData' now =
     \<lparr>eid = 0, title = trim (titleInput f),
      description = Some (trim (descriptionInput f)),
      tags = Some (processTags (tagsInput f)), fileName = fname file, fileType = stringified ft,
      etype = fileCategoryOf (ftype file), fileData = fileData', date = now\<rparr>"

definition handleUpload :: "manager \<Rightarrow> form \<Rightarrow> string option \<Rightarrow> int \<Rightarrow> manager \<times> toast" where
  \<comment> \<open>Lines 314-395. \<open>readResult\<close> is what \<open>readFileAsDataURL\<close> resolves to (\<open>None\<close>
      when the reader fails and the \<open>catch\<close> block runs), \<open>now\<close> the instant of
      \<open>new Date()\<close>. The result is the state after the call and the toast shown.
      With \<open>parseInt\<close> giving NaN no stored id equals it and
      \<open>updateEntryInLocalStorage\<close> writes nothing.\<close>
  "handleUpload m f readResult now =
     (if length (files f) = 0 then (m, Toast ''Error'' ''Please select a file'' ''danger'')
      else if trim (titleInput f) = [] then (m, Toast ''Error'' ''Please enter a title'' ''danger'')
      else
        (let file = hd (files f) in
         case ALLOWED_TYPES_get (ftype file) of
           None \<Rightarrow> (m, Toast ''Error'' ''File type not allowed'' ''danger'')
         | Some ft \<Rightarrow>
             if \<not> toBoolean ft then (m, Toast ''Error'' ''File type not allowed'' ''danger'')
             else if fsize file > MAX_FILE_SIZE
             then (m, Toast ''Error'' ''File size exceeds 10MB limit'' ''danger'')
             else
               (case readResult of
                  None \<Rightarrow> (m, Toast ''Error'' ''Failed to process file'' ''danger'')
                | Some fileData' \<Rightarrow>
                    (let entry = buildEntry f file ft fileData' now;
                         added =
                           (\<lparr>storage = fst (addEntryToLocalStorage (storage m) entry),
                              currentEntryId = None\<rparr>,
                            Toast ''Success'' ''File uploaded successfully'' ''success'')
                     in case currentEntryId m of
                          None \<Rightarrow> added
                        | Some c \<Rightarrow>
                            if c = [] then added
                            else
                              (let ls' = (case parseInt c of
                                            None \<Rightarrow> storage m
                                          | Some i \<Rightarrow>
                                              updateEntryInLocalStorage (storage m)
                                                (entry\<lparr>eid := i\<rparr>))
                               in (\<lparr>storage = ls', currentEntryId = None\<rparr>,
                                   Toast ''Success'' ''Entry updated successfully''
                                     ''success''))))))"

definition validation_toasts :: "toast list" where
  \<comment> \<open>The four messages of lines 321-344, each followed by \<open>return\<close> before the
      \<open>try\<close> block that reads the file and calls the store.\<close>
  "validation_toasts =
     [Toast ''Error'' ''Please select a file'' ''danger'',
      Toast ''Error'' ''Please enter a title'' ''danger'',
      Toast ''Error'' ''File type not allowed'' ''danger'',
      Toast ''Error'' ''File size exceeds 10MB limit'' ''danger'']"

definition editForm :: form where
  "editForm = \<lparr>files = [\<lparr>fname = ''report-v2.pdf'', ftype = ''application/pdf'', fsize = 2097152\<rparr>],
     titleInput = ''Report '', descriptionInput = '''', tagsInput = ''Work, urgent''\<rparr>"

section \<open>Properties of the fallback backend\<close>

lemma fold_max_eq_Max: "fold max xs (x::int) = Max (set (x # xs))"
proof (induction xs arbitrary: x)
  case Nil
  show ?case by simp
next
  case (Cons y ys)
  have "fold max (y # ys) x = Max (set (max y x # ys))"
    using Cons.IH [of "max y x"] by simp
  also have "\<dots> = Max (set (x # y # ys))"
    by (cases ys) (simp_all add: max.commute max.left_commute max.assoc)
  finally show ?case .
qed

lemma Math_max_nonempty:
  assumes "xs \<noteq> []"
  shows "Math_max xs = Some (Max (set xs))"
proof -
  from assms obtain y ys where xs: "xs = y # ys" by (cases xs) auto
  show ?thesis unfolding xs Math_max.simps fold_max_eq_Max ..
qed

lemma findIndex_None_iff: "findIndex p xs = None \<longleftrightarrow> (\<forall>x \<in> set xs. \<not> p x)"
  by (induction xs) (auto split: option.splits)

lemma findIndex_Some:
  "findIndex p xs = Some i \<Longrightarrow> i < length xs \<and> p (xs ! i) \<and> (\<forall>j<i. \<not> p (xs ! j))"
proof (induction xs arbitrary: i)
  case Nil
  then show ?case by simp
next
  case (Cons x xs)
  show ?case
  proof (cases "p x")
    case True
    with Cons.prems show ?thesis by simp
  next
    case False
    with Cons.prems obtain k where k: "findIndex p xs = Some k" and i: "i = Suc k"
      by (auto split: option.splits)
    from Cons.IH [OF k] False i show ?thesis
      by (auto simp: nth_Cons split: nat.splits)
  qed
qed

lemma ids_after_update:
  assumes "findIndex (\<lambda>e. eid e = eid entry) es = Some i"
  shows "map eid (es[i := entry]) = map eid es"
proof -
  from findIndex_Some [OF assms] have "i < length es" and "eid (es ! i) = eid entry"
    by simp_all
  then show ?thesis
    by (simp add: map_update list_update_same_conv)
qed

lemma new_id_is_fresh:
  assumes "es \<noteq> []"
  shows "\<forall>i \<in> set (map eid es). i < Max (set (map eid es)) + 1"
proof
  fix i assume "i \<in> set (map eid es)"
  then have "i \<le> Max (set (map eid es))" by (intro Max_ge) simp_all
  then show "i < Max (set (map eid es)) + 1" by simp
qed

lemma distinct_after_insert:
  assumes "distinct (map eid (getEntriesFromLocalStorage ls))"
  shows "distinct (map eid (getEntriesFromLocalStorage (fst (addEntryToLocalStorage ls e))))"
proof (cases "getEntriesFromLocalStorage ls = []")
  case True
  then show ?thesis
    by (simp add: addEntryToLocalStorage_def getEntriesFromLocalStorage_def Let_def)
next
  case False
  then have m: "Math_max (map eid (getEntriesFromLocalStorage ls))
      = Some (Max (set (map eid (getEntriesFromLocalStorage ls))))"
    by (intro Math_max_nonempty) simp
  have "Max (set (map eid (getEntriesFromLocalStorage ls))) + 1
      \<notin> set (map eid (getEntriesFromLocalStorage ls))"
    using new_id_is_fresh [OF False] by blast
  with assms False m show ?thesis
    by (simp add: addEntryToLocalStorage_def Let_def getEntriesFromLocalStorage_def)
qed

lemma distinct_after_update:
  assumes "distinct (map eid (getEntriesFromLocalStorage ls))"
  shows "distinct (map eid (getEntriesFromLocalStorage (updateEntryInLocalStorage ls e)))"
proof (cases "findIndex (\<lambda>x. eid x = eid e) (getEntriesFromLocalStorage ls)")
  case None
  with assms show ?thesis by (simp add: updateEntryInLocalStorage_def)
next
  case (Some i)
  have "getEntriesFromLocalStorage (updateEntryInLocalStorage ls e)
      = (getEntriesFromLocalStorage ls)[i := e]"
    using Some by (simp add: updateEntryInLocalStorage_def getEntriesFromLocalStorage_def)
  with assms ids_after_update [OF Some] show ?thesis by simp
qed

lemma distinct_after_remove:
  assumes "distinct (map eid (getEntriesFromLocalStorage ls))"
  shows "distinct (map eid (getEntriesFromLocalStorage (removeEntryFromLocalStorage ls i)))"
  using assms
  by (simp add: removeEntryFromLocalStorage_def getEntriesFromLocalStorage_def distinct_map_filter)

lemma distinct_after_op:
  "distinct (map eid (getEntriesFromLocalStorage ls))
   \<Longrightarrow> distinct (map eid (getEntriesFromLocalStorage (apply_op ls op)))"
  by (cases op) (simp_all add: distinct_after_insert distinct_after_update distinct_after_remove)

lemma distinct_after_ops:
  "distinct (map eid (getEntriesFromLocalStorage ls))
   \<Longrightarrow> distinct (map eid (getEntriesFromLocalStorage (foldl apply_op ls ops)))"
  by (induction ops arbitrary: ls) (simp_all add: distinct_after_op)

text \<open>
  C2. On the fallback backend, \<open>insert\<close> assigns the id \<open>max(existing ids) + 1\<close> when
  the store holds a record and \<open>1\<close> when it is empty, appends the record under that id,
  and returns the id.
\<close>

theorem insert_assigns_max_plus_one:
  assumes "addEntryToLocalStorage ls entry = (ls', r)"
  shows "r = (if getEntriesFromLocalStorage ls = [] then 1
              else Max (set (map eid (getEntriesFromLocalStorage ls))) + 1)
         \<and> ls' = Some (getEntriesFromLocalStorage ls @ [entry\<lparr>eid := r\<rparr>])"
proof (cases "getEntriesFromLocalStorage ls = []")
  case True
  with assms show ?thesis
    by (auto simp: addEntryToLocalStorage_def Let_def)
next
  case False
  then have "Math_max (map eid (getEntriesFromLocalStorage ls))
      = Some (Max (set (map eid (getEntriesFromLocalStorage ls))))"
    by (intro Math_max_nonempty) simp
  with assms False show ?thesis
    by (auto simp: addEntryToLocalStorage_def Let_def)
qed

theorem insert_assigns_max_plus_one_witness:
  "addEntryToLocalStorage (Some [photo, report]) report
     = (Some [photo, report, report\<lparr>eid := 3\<rparr>], 3)
   \<and> addEntryToLocalStorage None photo = (Some [photo\<lparr>eid := 1\<rparr>], 1)"
proof -
  obtain ls' r where a: "addEntryToLocalStorage (Some [photo, report]) report = (ls', r)"
    by (cases "addEntryToLocalStorage (Some [photo, report]) report")
  obtain ms' q where b: "addEntryToLocalStorage None photo = (ms', q)"
    by (cases "addEntryToLocalStorage None photo")
  from insert_assigns_max_plus_one [OF a] have "r = 3" and "ls' = Some [photo, report, report\<lparr>eid := r\<rparr>]"
    by (simp_all add: getEntriesFromLocalStorage_def photo_def report_def)
  moreover from insert_assigns_max_plus_one [OF b] have "q = 1" and "ms' = Some [photo\<lparr>eid := q\<rparr>]"
    by (simp_all add: getEntriesFromLocalStorage_def)
  ultimately show ?thesis using a b by simp
qed

text \<open>
  C3. On the fallback backend, \<open>update\<close> with an id that the store holds puts the given
  record, whole, in the place of the first stored record with that id and leaves every
  other position as it was; with an id that the store does not hold it returns the
  storage it was given, unwritten.
\<close>

theorem update_replaces_or_leaves:
  "(eid entry \<in> set (map eid (getEntriesFromLocalStorage ls)) \<longrightarrow>
      (\<exists>i < length (getEntriesFromLocalStorage ls).
          eid (getEntriesFromLocalStorage ls ! i) = eid entry
        \<and> (\<forall>j < i. eid (getEntriesFromLocalStorage ls ! j) \<noteq> eid entry)
        \<and> updateEntryInLocalStorage ls entry = Some ((getEntriesFromLocalStorage ls)[i := entry])
        \<and> getEntriesFromLocalStorage (updateEntryInLocalStorage ls entry) ! i = entry))
   \<and> (eid entry \<notin> set (map eid (getEntriesFromLocalStorage ls)) \<longrightarrow>
      updateEntryInLocalStorage ls entry = ls)"
proof (intro conjI impI)
  assume present: "eid entry \<in> set (map eid (getEntriesFromLocalStorage ls))"
  let ?es = "getEntriesFromLocalStorage ls"
  from present have "\<not> (\<forall>x \<in> set ?es. \<not> eid x = eid entry)" by auto
  then obtain i where i: "findIndex (\<lambda>e. eid e = eid entry) ?es = Some i"
    using findIndex_None_iff [of "\<lambda>e. eid e = eid entry" ?es] by (cases "findIndex (\<lambda>e. eid e = eid entry) ?es") auto
  from findIndex_Some [OF i]
  have b: "i < length ?es" and h: "eid (?es ! i) = eid entry"
    and f: "\<forall>j<i. eid (?es ! j) \<noteq> eid entry"
    by simp_all
  have u: "updateEntryInLocalStorage ls entry = Some (?es[i := entry])"
    using i by (simp add: updateEntryInLocalStorage_def)
  have "getEntriesFromLocalStorage (Some (?es[i := entry])) ! i = entry"
    using b by (simp add: getEntriesFromLocalStorage_def)
  with b h f u
  show "\<exists>i < length ?es. eid (?es ! i) = eid entry \<and> (\<forall>j < i. eid (?es ! j) \<noteq> eid entry)
      \<and> updateEntryInLocalStorage ls entry = Some (?es[i := entry])
      \<and> getEntriesFromLocalStorage (updateEntryInLocalStorage ls entry) ! i = entry"
    by auto
next
  assume "eid entry \<notin> set (map eid (getEntriesFromLocalStorage ls))"
  then have "\<forall>x \<in> set (getEntriesFromLocalStorage ls). \<not> eid x = eid entry"
    by (metis image_eqI set_map)
  then have "findIndex (\<lambda>e. eid e = eid entry) (getEntriesFromLocalStorage ls) = None"
    by (simp only: findIndex_None_iff)
  then show "updateEntryInLocalStorage ls entry = ls"
    by (simp add: updateEntryInLocalStorage_def)
qed

theorem update_replaces_or_leaves_witness:
  "updateEntryInLocalStorage (Some [photo, report]) (photo\<lparr>eid := 1\<rparr>)
     = Some [photo, photo\<lparr>eid := 1\<rparr>]
   \<and> updateEntryInLocalStorage (Some [photo, report]) (photo\<lparr>eid := 7\<rparr>) = Some [photo, report]
   \<and> updateEntryInLocalStorage None report = None"
proof -
  have ids: "map eid (getEntriesFromLocalStorage (Some [photo, report])) = [2, 1]"
    by (simp add: getEntriesFromLocalStorage_def photo_def report_def)
  have "eid (photo\<lparr>eid := 1\<rparr>) \<in> set (map eid (getEntriesFromLocalStorage (Some [photo, report])))"
    unfolding ids by simp
  with update_replaces_or_leaves [of "photo\<lparr>eid := 1\<rparr>" "Some [photo, report]"]
  obtain i where i: "i < length (getEntriesFromLocalStorage (Some [photo, report]))"
    and h: "eid (getEntriesFromLocalStorage (Some [photo, report]) ! i) = eid (photo\<lparr>eid := 1\<rparr>)"
    and u: "updateEntryInLocalStorage (Some [photo, report]) (photo\<lparr>eid := 1\<rparr>)
        = Some ((getEntriesFromLocalStorage (Some [photo, report]))[i := photo\<lparr>eid := 1\<rparr>])"
    by blast
  from i have "i = 0 \<or> i = 1"
    by (auto simp: getEntriesFromLocalStorage_def)
  with h have "i = 1"
    by (auto simp: getEntriesFromLocalStorage_def photo_def)
  with u have one: "updateEntryInLocalStorage (Some [photo, report]) (photo\<lparr>eid := 1\<rparr>)
      = Some [photo, photo\<lparr>eid := 1\<rparr>]"
    by (simp add: getEntriesFromLocalStorage_def)
  have "eid (photo\<lparr>eid := 7\<rparr>) \<notin> set (map eid (getEntriesFromLocalStorage (Some [photo, report])))"
    unfolding ids by simp
  with update_replaces_or_leaves [of "photo\<lparr>eid := 7\<rparr>" "Some [photo, report]"]
  have two: "updateEntryInLocalStorage (Some [photo, report]) (photo\<lparr>eid := 7\<rparr>)
      = Some [photo, report]"
    by blast
  have "eid report \<notin> set (map eid (getEntriesFromLocalStorage None))"
    by (simp add: getEntriesFromLocalStorage_def)
  with update_replaces_or_leaves [of report None]
  have three: "updateEntryInLocalStorage None report = None"
    by blast
  from one two three show ?thesis by simp
qed


text \<open>
  C9. Starting from the empty fallback store (the key never written), every sequence of
  \<open>insert\<close>, \<open>update\<close> and \<open>delete\<close> operations leaves the ids of the stored records
  pairwise distinct.
\<close>

theorem ids_stay_distinct:
  "distinct (map eid (getEntriesFromLocalStorage (run_ops None ops)))"
proof -
  have "distinct (map eid (getEntriesFromLocalStorage None))"
    by (simp add: getEntriesFromLocalStorage_def)
  then show ?thesis
    unfolding run_ops_def by (rule distinct_after_ops)
qed

section \<open>Properties of the query layer\<close>

lemma take_eq_iff_prefix: "take (length t) s = t \<longleftrightarrow> prefix t s"
proof
  assume "take (length t) s = t"
  then have "s = t @ drop (length t) s" by (metis append_take_drop_id)
  then show "prefix t s" by (metis prefixI)
next
  assume "prefix t s"
  then obtain zs where "s = t @ zs" by (auto simp: prefix_def)
  then show "take (length t) s = t" by simp
qed

lemma str_includes_iff_sublist: "str_includes s t \<longleftrightarrow> sublist t s"
proof (induction s)
  case Nil
  show ?case by simp
next
  case (Cons c cs)
  have "str_includes (c # cs) t \<longleftrightarrow> prefix t (c # cs) \<or> sublist t cs"
    using Cons.IH by (simp only: str_includes.simps take_eq_iff_prefix)
  then show ?case by (simp only: sublist_Cons_right)
qed

lemma toLowerCase_Nil_iff: "toLowerCase s = [] \<longleftrightarrow> s = []"
  by (simp add: toLowerCase_def)

lemma matchesSearch_iff:
  "matchesSearch (toLowerCase s) e \<longleftrightarrow>
     (s = [] \<or> ci_substring s (title e) \<or>
        (case description e of None \<Rightarrow> False | Some d \<Rightarrow> ci_substring s d))"
proof (cases "s = []")
  case True
  then show ?thesis by (simp add: matchesSearch_def toLowerCase_def)
next
  case False
  then have ne: "toLowerCase s \<noteq> []" by (simp add: toLowerCase_Nil_iff)
  have empty: "\<not> sublist (toLowerCase s) (toLowerCase [])"
    using ne by (simp add: toLowerCase_def)
  show ?thesis
  proof (cases "description e")
    case None
    with False ne show ?thesis
      by (simp add: matchesSearch_def ci_substring_def str_includes_iff_sublist)
  next
    case (Some d)
    have "(d \<noteq> [] \<and> sublist (toLowerCase s) (toLowerCase d))
        \<longleftrightarrow> sublist (toLowerCase s) (toLowerCase d)"
      using empty by (cases "d = []") simp_all
    with False ne Some show ?thesis
      by (simp add: matchesSearch_def ci_substring_def str_includes_iff_sublist)
  qed
qed

lemma code_filter_is_spec_filter:
  "(matchesSearch (toLowerCase s) e \<and> matchesType ty e \<and> matchesTag tg e)
     \<longleftrightarrow> spec_matches s ty tg e"
  unfolding matchesSearch_iff spec_matches_def matchesType_def matchesTag_def
  by auto

lemma mset_insert_by: "mset (insert_by cmp x ys) = add_mset x (mset ys)"
  by (induction ys) simp_all

lemma mset_array_sort: "mset (array_sort cmp xs) = mset xs"
  unfolding array_sort_def by (induction xs) (simp_all add: mset_insert_by)

lemma set_insert_by: "set (insert_by cmp x ys) = insert x (set ys)"
  by (induction ys) auto

lemma newest_first_insert:
  assumes "sorted_wrt (\<lambda>a b. date b \<le> date a) ys"
  shows "sorted_wrt (\<lambda>a b. date b \<le> date a) (insert_by (\<lambda>a b. date b - date a) x ys)"
  using assms
proof (induction ys)
  case Nil
  show ?case by simp
next
  case (Cons y ys)
  show ?case
  proof (cases "date y - date x \<le> 0")
    case True
    with Cons.prems show ?thesis by auto
  next
    case False
    with Cons show ?thesis by (auto simp: set_insert_by)
  qed
qed

lemma newest_first_array_sort:
  "sorted_wrt (\<lambda>a b. date b \<le> date a) (array_sort (\<lambda>a b. date b - date a) xs)"
  unfolding array_sort_def by (induction xs) (simp_all add: newest_first_insert)

text \<open>
  C1. For every list of records and every search text, type filter and tag filter, the
  list that \<open>loadEntries\<close> displays holds exactly the records (each as often as the
  store lists it) that satisfy the conjunction of the three predicates of the
  specification, and it is ordered by \<open>date\<close> descending, newest first.
\<close>

theorem loadEntries_filters_and_sorts:
  "mset (loadEntries es s ty tg) = mset (filter (spec_matches s ty tg) es)
   \<and> sorted_wrt (\<lambda>a b. date b \<le> date a) (loadEntries es s ty tg)"
proof
  have "filter (\<lambda>e. matchesSearch (toLowerCase s) e \<and> matchesType ty e \<and> matchesTag tg e) es
      = filter (spec_matches s ty tg) es"
    by (simp only: code_filter_is_spec_filter)
  then show "mset (loadEntries es s ty tg) = mset (filter (spec_matches s ty tg) es)"
    by (simp add: loadEntries_def Let_def mset_array_sort)
  show "sorted_wrt (\<lambda>a b. date b \<le> date a) (loadEntries es s ty tg)"
    by (simp add: loadEntries_def Let_def newest_first_array_sort)
qed

text \<open>
  C10. For a record with no description the search predicate is a total function of the
  record and the search text, and for a search text that is not empty it holds exactly
  when the title contains the text, case-insensitively.
\<close>

theorem search_without_description:
  assumes "description e = None" and "s \<noteq> []"
  shows "matchesSearch (toLowerCase s) e \<longleftrightarrow> ci_substring s (title e)"
  using assms by (simp add: matchesSearch_iff)

theorem search_without_description_witness:
  "description photo = None \<and> ''oLID'' \<noteq> [] \<and> ci_substring ''oLID'' (title photo)
   \<and> matchesSearch (toLowerCase ''oLID'') photo
   \<and> \<not> ci_substring ''beach'' (title photo)"
proof -
  have d: "description photo = None" by (simp add: photo_def)
  have a: "matchesSearch (toLowerCase ''oLID'') photo"
    by code_simp
  have b: "\<not> matchesSearch (toLowerCase ''beach'') photo"
    by code_simp
  from a search_without_description [OF d, of "''oLID''"]
  have "ci_substring ''oLID'' (title photo)" by simp
  moreover from b search_without_description [OF d, of "''beach''"]
  have "\<not> ci_substring ''beach'' (title photo)" by simp
  ultimately show ?thesis using a d by simp
qed

section \<open>Properties of the tag index\<close>

lemma set_set_add: "set (set_add x s) = insert x (set s)"
  by (auto simp: set_add_def)

lemma distinct_set_add: "distinct s \<Longrightarrow> distinct (set_add x s)"
  by (simp add: set_add_def)

lemma set_add_tags:
  "set (fold (\<lambda>tag s'. set_add (toLowerCase tag) s') ts s) = set s \<union> toLowerCase ` set ts"
  by (induction ts arbitrary: s) (simp_all add: set_set_add)

lemma distinct_add_tags:
  "distinct s \<Longrightarrow> distinct (fold (\<lambda>tag s'. set_add (toLowerCase tag) s') ts s)"
  by (induction ts arbitrary: s) (simp_all add: distinct_set_add)

lemma set_collect_from:
  "set (fold (\<lambda>entry s.
        case tags entry of
          None \<Rightarrow> s
        | Some ts \<Rightarrow>
            if length ts > 0 then fold (\<lambda>tag s'. set_add (toLowerCase tag) s') ts s else s)
       es acc)
   = set acc \<union> {toLowerCase t | e ts t. e \<in> set es \<and> tags e = Some ts \<and> t \<in> set ts}"
proof (induction es arbitrary: acc)
  case Nil
  show ?case by simp
next
  case (Cons e es)
  show ?case
  proof (cases "tags e")
    case None
    then have "{toLowerCase t | e' ts t. e' \<in> set (e # es) \<and> tags e' = Some ts \<and> t \<in> set ts}
        = {toLowerCase t | e' ts t. e' \<in> set es \<and> tags e' = Some ts \<and> t \<in> set ts}"
      by auto
    with None show ?thesis by (simp add: Cons.IH)
  next
    case (Some ts)
    then have "{toLowerCase t | e' ts' t. e' \<in> set (e # es) \<and> tags e' = Some ts' \<and> t \<in> set ts'}
        = toLowerCase ` set ts
          \<union> {toLowerCase t | e' ts' t. e' \<in> set es \<and> tags e' = Some ts' \<and> t \<in> set ts'}"
      by auto
    with Some show ?thesis
      by (cases "ts = []") (simp_all add: Cons.IH set_add_tags Un_assoc)
  qed
qed

lemma distinct_collect_from:
  "distinct acc \<Longrightarrow>
   distinct (fold (\<lambda>entry s.
        case tags entry of
          None \<Rightarrow> s
        | Some ts \<Rightarrow>
            if length ts > 0 then fold (\<lambda>tag s'. set_add (toLowerCase tag) s') ts s else s)
       es acc)"
proof (induction es arbitrary: acc)
  case Nil
  then show ?case by simp
next
  case (Cons e es)
  show ?case
    using Cons.prems
    by (cases "tags e") (simp_all add: Cons.IH distinct_add_tags)
qed

text \<open>
  The order of \<open>string\<close> in which \<open>sorted\<close> is read below: lexicographic, by the
  code of the first character that differs, a proper prefix before its extensions.
\<close>

lemma string_less_is_lexicographic:
  "(a::string) < b \<longleftrightarrow> (a, b) \<in> lexord {(c, d). (of_char c :: nat) < of_char d}"
  by (simp add: list_less_def less_char_def)

text \<open>
  C6. For every store contents, the tag index that \<open>loadTags\<close> builds holds exactly the
  tags of all records, case-folded to lowercase; no entry occurs twice; and the list is
  sorted in the lexicographic order of strings.
\<close>

theorem loadTags_is_sorted_union:
  "set (loadTags es) = {toLowerCase t | e ts t. e \<in> set es \<and> tags e = Some ts \<and> t \<in> set ts}
   \<and> distinct (loadTags es)
   \<and> sorted (loadTags es)"
proof (intro conjI)
  show "set (loadTags es)
      = {toLowerCase t | e ts t. e \<in> set es \<and> tags e = Some ts \<and> t \<in> set ts}"
    unfolding loadTags_def collectTags_def set_sort set_collect_from by simp
  show "distinct (loadTags es)"
    unfolding loadTags_def collectTags_def distinct_sort
    by (rule distinct_collect_from) simp
  show "sorted (loadTags es)"
    unfolding loadTags_def by (rule sorted_sort)
qed

section \<open>Properties of upload and edit\<close>

lemma allowed_values_nonempty: "map_of ALLOWED_TYPES t = Some ft \<Longrightarrow> ft \<noteq> []"
  by (auto simp: ALLOWED_TYPES_def split: if_splits)

lemma ALLOWED_TYPES_get_own:
  "map_of ALLOWED_TYPES t = Some ft \<Longrightarrow> ALLOWED_TYPES_get t = Some (JStr ft)"
  by (simp add: ALLOWED_TYPES_get_def)

lemma ALLOWED_TYPES_get_truthy:
  assumes "ALLOWED_TYPES_get t = Some v"
  shows "toBoolean v"
proof (cases "map_of ALLOWED_TYPES t")
  case None
  with assms show ?thesis
    by (auto simp: ALLOWED_TYPES_get_def split: if_splits)
next
  case (Some ft)
  with assms have "v = JStr ft" by (simp add: ALLOWED_TYPES_get_def)
  with allowed_values_nonempty [OF Some] show ?thesis by simp
qed

lemma parseInt_Nil: "parseInt [] = None"
  by (simp add: parseInt_def)

lemma find_after_update:
  "findIndex p xs = Some k \<Longrightarrow> p y \<Longrightarrow> find p (xs[k := y]) = Some y"
proof (induction xs arbitrary: k)
  case Nil
  then show ?case by simp
next
  case (Cons x xs)
  show ?case
  proof (cases "p x")
    case True
    with Cons.prems show ?thesis by simp
  next
    case False
    with Cons.prems obtain j where j: "findIndex p xs = Some j" and k: "k = Suc j"
      by (auto split: option.splits)
    from Cons.IH [OF j Cons.prems(2)] False k show ?thesis by simp
  qed
qed

lemma findIndex_present:
  assumes "i \<in> set (map eid es)"
  shows "\<exists>k. findIndex (\<lambda>e. eid e = i) es = Some k"
proof (cases "findIndex (\<lambda>e. eid e = i) es")
  case None
  then have "\<forall>x \<in> set es. eid x \<noteq> i" by (simp only: findIndex_None_iff)
  with assms show ?thesis by auto
next
  case (Some k)
  then show ?thesis by blast
qed

lemma handleUpload_edit:
  assumes "files f = file # rest" and "trim (titleInput f) \<noteq> []"
    and "map_of ALLOWED_TYPES (ftype file) = Some ft" and "fsize file \<le> MAX_FILE_SIZE"
    and "currentEntryId m = Some c" and "parseInt c = Some i"
  shows "storage (fst (handleUpload m f (Some data) now))
           = updateEntryInLocalStorage (storage m)
               ((buildEntry f file (JStr ft) data now)\<lparr>eid := i\<rparr>)"
proof -
  from assms(6) have "c \<noteq> []" using parseInt_Nil by auto
  moreover from assms(3) have "ft \<noteq> []" by (rule allowed_values_nonempty)
  moreover from assms(3) have "ALLOWED_TYPES_get (ftype file) = Some (JStr ft)"
    by (rule ALLOWED_TYPES_get_own)
  ultimately show ?thesis
    using assms by (simp add: handleUpload_def Let_def)
qed

text \<open>
  What the validation of lines 321-344 does reject: a submission whose first file has
  a type for which \<open>ALLOWED_TYPES[file.type]\<close> is \<open>undefined\<close>, or a size above 10 MiB,
  leaves the state as it was and shows one of the four validation messages, before the
  file is read and before any call to the store.
\<close>

lemma upload_rejected_when_lookup_fails:
  assumes "files f = file # rest"
    and "ALLOWED_TYPES_get (ftype file) = None \<or> fsize file > MAX_FILE_SIZE"
  shows "fst (handleUpload m f readResult now) = m
         \<and> snd (handleUpload m f readResult now) \<in> set validation_toasts"
proof (cases "ALLOWED_TYPES_get (ftype file)")
  case None
  with assms(1) show ?thesis
    by (simp add: handleUpload_def validation_toasts_def)
next
  case (Some v)
  with assms(2) have "fsize file > MAX_FILE_SIZE" by simp
  with assms(1) Some show ?thesis
    by (simp add: handleUpload_def validation_toasts_def)
qed

lemma oversized_upload_rejected:
  "handleUpload \<lparr>storage = Some [report], currentEntryId = None\<rparr>
     (editForm\<lparr>files := [\<lparr>fname = ''film.mp4'', ftype = ''video/mp4'', fsize = 11534336\<rparr>]\<rparr>)
     (Some ''data:video/mp4;base64,CCCC'') 1704186000000
   = (\<lparr>storage = Some [report], currentEntryId = None\<rparr>,
      Toast ''Error'' ''File size exceeds 10MB limit'' ''danger'')"
  by code_simp

text \<open>
  C7, evaluated on the code. The claim has every upload whose content type is outside
  the six allowed types rejected with the store unchanged. The type \<open>constructor\<close> is
  outside the six keys, but \<open>ALLOWED_TYPES['constructor']\<close> is the function that the
  object literal inherits from \<open>Object.prototype\<close>, so the test of line 335 lets the file
  through: it is read, classed as a document and added to the store under a new id,
  with the toast of a successful upload. The same holds for \<open>__proto__\<close>. The size
  limit works as claimed.
\<close>

theorem upload_with_inherited_type_is_stored:
  "''constructor'' \<notin> set (map fst ALLOWED_TYPES)
   \<and> ALLOWED_TYPES_get ''constructor'' = Some JFunction
   \<and> handleUpload \<lparr>storage = Some [report], currentEntryId = None\<rparr>
        (editForm\<lparr>files := [\<lparr>fname = ''notes.bin'', ftype = ''constructor'', fsize = 10\<rparr>]\<rparr>)
        (Some ''data:constructor;base64,eA=='') 1704186000000
      = (\<lparr>storage = Some [report,
             \<lparr>eid = 2, title = ''Report'', description = Some '''',
              tags = Some [''Work'', ''urgent''], fileName = ''notes.bin'', fileType = None,
              etype = ''document'', fileData = ''data:constructor;base64,eA=='',
              date = 1704186000000\<rparr>],
           currentEntryId = None\<rparr>,
         Toast ''Success'' ''File uploaded successfully'' ''success'')
   \<and> fst (handleUpload \<lparr>storage = Some [report], currentEntryId = None\<rparr>
        (editForm\<lparr>files := [\<lparr>fname = ''notes.bin'', ftype = ''__proto__'', fsize = 10\<rparr>]\<rparr>)
        (Some ''data:__proto__;base64,eA=='') 1704186000000)
      \<noteq> \<lparr>storage = Some [report], currentEntryId = None\<rparr>"
  by code_simp

text \<open>
  C4 as the specification states it: an edit through \<open>handleUpload\<close> leaves the stored
  \<open>date\<close> of the record at its value from creation. It does not: the record stored with
  the date of 2024-01-01 carries the instant of the save after the edit.
\<close>

theorem edit_keeps_date_counterexample:
  "getEntryById (Some [report]) ''1'' = Some report
   \<and> date report = 1704103200000
   \<and> map_option date
        (getEntryById
           (storage (fst (handleUpload \<lparr>storage = Some [report], currentEntryId = Some ''1''\<rparr>
              editForm (Some ''data:application/pdf;base64,DDDD'') 1704186000000)))
           ''1'')
       = Some 1704186000000"
  by code_simp

text \<open>
  C4, amended. For every record of the fallback store, an edit through \<open>handleUpload\<close>
  (a form that passes validation, a file that is read, the edit target naming the
  record's id) stores under that id the record built from the form, whose \<open>date\<close> is the
  instant of the save: the date held before the edit is replaced.
\<close>

theorem edit_stamps_save_time:
  assumes "files f = file # rest" and "trim (titleInput f) \<noteq> []"
    and "map_of ALLOWED_TYPES (ftype file) = Some ft" and "fsize file \<le> MAX_FILE_SIZE"
    and "currentEntryId m = Some c" and "parseInt c = Some i"
    and "i \<in> set (map eid (getEntriesFromLocalStorage (storage m)))"
  shows "getEntryById (storage (fst (handleUpload m f (Some data) now))) c
           = Some ((buildEntry f file (JStr ft) data now)\<lparr>eid := i\<rparr>)
         \<and> date ((buildEntry f file (JStr ft) data now)\<lparr>eid := i\<rparr>) = now"
proof
  let ?e = "(buildEntry f file (JStr ft) data now)\<lparr>eid := i\<rparr>"
  let ?es = "getEntriesFromLocalStorage (storage m)"
  have st: "storage (fst (handleUpload m f (Some data) now))
      = updateEntryInLocalStorage (storage m) ?e"
    using assms(1-6) by (rule handleUpload_edit)
  from findIndex_present [OF assms(7)]
  obtain k where k: "findIndex (\<lambda>e. eid e = i) ?es = Some k" by blast
  then have up: "updateEntryInLocalStorage (storage m) ?e = Some (?es[k := ?e])"
    by (simp add: updateEntryInLocalStorage_def)
  have "find (\<lambda>e. eid e = i) (?es[k := ?e]) = Some ?e"
    using k by (rule find_after_update) simp
  then show "getEntryById (storage (fst (handleUpload m f (Some data) now))) c = Some ?e"
    using assms(6) by (simp add: st up getEntryById_def getEntriesFromLocalStorage_def)
  show "date ?e = now" by (simp add: buildEntry_def)
qed

theorem edit_stamps_save_time_witness:
  "map_option date
     (getEntryById
        (storage (fst (handleUpload \<lparr>storage = Some [photo, report], currentEntryId = Some ''1''\<rparr>
           editForm (Some ''data:application/pdf;base64,DDDD'') 1704186000000)))
        ''1'')
     = Some 1704186000000
   \<and> date report = 1704103200000"
proof -
  let ?m = "\<lparr>storage = Some [photo, report], currentEntryId = Some ''1''\<rparr>"
  let ?file = "\<lparr>fname = ''report-v2.pdf'', ftype = ''application/pdf'', fsize = 2097152\<rparr>"
  have a1: "files editForm = ?file # []" by (simp add: editForm_def)
  have a2: "trim (titleInput editForm) \<noteq> []" by code_simp
  have a3: "map_of ALLOWED_TYPES (ftype ?file) = Some ''pdf''" by (simp add: ALLOWED_TYPES_def)
  have a4: "fsize ?file \<le> MAX_FILE_SIZE" by (simp add: MAX_FILE_SIZE_def)
  have a5: "currentEntryId ?m = Some ''1''" by simp
  have a6: "parseInt ''1'' = Some 1" by code_simp
  have a7: "1 \<in> set (map eid (getEntriesFromLocalStorage (storage ?m)))"
    by (simp add: getEntriesFromLocalStorage_def report_def)
  from edit_stamps_save_time [OF a1 a2 a3 a4 a5 a6 a7,
      of "''data:application/pdf;base64,DDDD''" 1704186000000]
  show ?thesis by (simp add: report_def)
qed

section \<open>The calendar date index\<close>

text \<open>
  C5, evaluated on the code. The browser runs at UTC+05:45 (\<open>tz = 345\<close>). One record
  was saved at 10:00 local time on 2 January 2024, which is 04:15 UTC of the same day.
  For the calendar cell of 2 January, \<open>new Date(2024, 0, 2)\<close> is local midnight, 18:15
  UTC of 1 January, so \<open>doesDateHaveEntries\<close> compares the text \<open>2024-01-01\<close> with
  \<open>2024-01-02\<close> and resolves to false on the day that has the record; for the cell of
  3 January it resolves to true on a day that has none. \<open>renderCalendar\<close> tests the
  promise itself, and gives every cell the class \<open>has-entries\<close>, also with an empty
  store.
\<close>

theorem calendar_index_on_local_day:
  "localDate 345 (date (photo\<lparr>date := 1704168900000\<rparr>)) = (2024, 1, 2)
   \<and> toISOString (date (photo\<lparr>date := 1704168900000\<rparr>)) = ''2024-01-02T04:15:00.000Z''
   \<and> toISOString (newDate 345 2024 0 2) = ''2024-01-01T18:15:00.000Z''
   \<and> \<not> doesDateHaveEntries [photo\<lparr>date := 1704168900000\<rparr>] (newDate 345 2024 0 2)
   \<and> doesDateHaveEntries [photo\<lparr>date := 1704168900000\<rparr>] (newDate 345 2024 0 3)
   \<and> hasEntriesClass [] (newDate 345 2024 0 2) = ''has-entries''"
  by code_simp

end
